theory Spec2Isabelle
  imports Main "HOL-Library.AList" "HOL-Library.Sublist"
begin

section \<open>Regular expressions of the source\<close>

text \<open>
  The service uses two regular-expression literals: \<^verbatim>\<open>SLUG_RE\<close> in \<^verbatim>\<open>addRoute\<close> and the
  Host pattern in \<^verbatim>\<open>extractSubdomain\<close>. Both are embedded as values of a small regex
  syntax and run by one backtracking matcher, so that each literal can be compared with
  the source character by character.

  \<open>rx_run r s\<close> lists, in the priority order of a backtracking engine (greedy choice
  first), the remainders of \<open>s\<close> after every way \<open>r\<close> can consume a prefix of \<open>s\<close>. An
  iteration of \<open>Star\<close> that consumes nothing is dropped, as ECMAScript's repeat matcher
  does. Strings are lists of 8-bit characters; a character outside ASCII is written as its
  UTF-8 bytes, which is what the response body carries on the wire.
\<close>

datatype regex =
    Class "char list"
  | Lit string
  | Seq regex regex
  | Opt regex
  | Star regex

function rx_run :: "regex \<Rightarrow> string \<Rightarrow> string list" where
  "rx_run (Class cs) s = (case s of [] \<Rightarrow> [] | c # t \<Rightarrow> if c \<in> set cs then [t] else [])"
| "rx_run (Lit l) s = (if take (length l) s = l then [drop (length l) s] else [])"
| "rx_run (Seq a b) s = concat (map (rx_run b) (rx_run a s))"
| "rx_run (Opt a) s = rx_run a s @ [s]"
| "rx_run (Star a) s =
     concat (map (\<lambda>t. if length t < length s then rx_run (Star a) t else []) (rx_run a s)) @ [s]"
  by pat_completeness auto
termination
  by (relation "inv_image (less_than <*lex*> less_than) (\<lambda>(r, s). (size r, length s))") auto

declare rx_run.simps [simp del]

text \<open>\<^verbatim>\<open>a+\<close> is \<^verbatim>\<open>aa*\<close>.\<close>

definition Plus :: "regex \<Rightarrow> regex" where
  "Plus a = Seq a (Star a)"

text \<open>\<^verbatim>\<open>/^r$/.test(s)\<close>: some way of running \<open>r\<close> consumes all of \<open>s\<close>.\<close>

definition rx_test :: "regex \<Rightarrow> string \<Rightarrow> bool" where
  "rx_test r s = ([] \<in> set (rx_run r s))"

text \<open>
  \<^verbatim>\<open>s.match(/^(g)k$/)\<close>, capture group 1: the backtracking search takes the first
  way of running the group \<open>g\<close> after which the rest \<open>k\<close> matches up to the end of the
  string, and the capture is the prefix the group consumed. \<open>None\<close> is JavaScript's
  \<^verbatim>\<open>null\<close> (no match).
\<close>

definition rx_group1 :: "regex \<Rightarrow> regex \<Rightarrow> string \<Rightarrow> string option" where
  "rx_group1 g k s =
     (case filter (rx_test k) (rx_run g s) of
        [] \<Rightarrow> None
      | t # _ \<Rightarrow> Some (take (length s - length t) s))"

text \<open>The character classes \<^verbatim>\<open>[a-z0-9]\<close>, \<^verbatim>\<open>[a-z0-9-]\<close> and \<^verbatim>\<open>\d\<close>.\<close>

definition az09 :: "char list" where
  "az09 = ''abcdefghijklmnopqrstuvwxyz0123456789''"

definition az09h :: "char list" where
  "az09h = ''abcdefghijklmnopqrstuvwxyz0123456789-''"

definition digit :: "char list" where
  "digit = ''0123456789''"

text \<open>\<^verbatim>\<open>const SLUG_RE = /^[a-z0-9]([a-z0-9-]*[a-z0-9])?$/;\<close>\<close>

definition SLUG_RE :: regex where
  "SLUG_RE = Seq (Class az09) (Opt (Seq (Star (Class az09h)) (Class az09)))"

text \<open>
  The Host pattern \<^verbatim>\<open>/^([a-z0-9][a-z0-9-]*[a-z0-9]?)\.localhost(:\d+)?$/\<close>, split into
  its capture group and the rest.
\<close>

definition HOST_RE_group :: regex where
  "HOST_RE_group = Seq (Seq (Class az09) (Star (Class az09h))) (Opt (Class az09))"

definition HOST_RE_tail :: regex where
  "HOST_RE_tail = Seq (Lit ''.localhost'') (Opt (Seq (Lit '':'') (Plus (Class digit))))"

text \<open>
  The slug grammar in the words of the specification: lowercase alphanumeric characters
  and hyphens, at least one character, no leading and no trailing hyphen.
\<close>

definition slug :: "string \<Rightarrow> bool" where
  "slug s = (s \<noteq> [] \<and> set s \<subseteq> set az09h \<and> hd s \<in> set az09 \<and> last s \<in> set az09)"

text \<open>What may follow the label in a Host value: \<^verbatim>\<open>.localhost\<close>, then optionally a colon and
  at least one decimal digit.\<close>

definition host_tail :: "string \<Rightarrow> bool" where
  "host_tail k \<longleftrightarrow>
     k = ''.localhost'' \<or>
     (take 11 k = ''.localhost:'' \<and> drop 11 k \<noteq> [] \<and> set (drop 11 k) \<subseteq> set digit)"

section \<open>Data model\<close>

datatype ProxyRouteStatus = St_starting | St_running | St_stopped | St_error

record ProxyRoute =
  name :: string
  targetPort :: nat
  targetHost :: string
  status :: ProxyRouteStatus
  taskId :: "string option"
  url :: string
  registeredAt :: string
  lastAccessed :: "string option"

record ProxyState =
  running :: bool
  state_port :: "nat option"
  state_routes :: "ProxyRoute list"

datatype ProxyEventType =
  Ev_started | Ev_stopped | Ev_route_added | Ev_route_removed | Ev_route_status | Ev_error

record ProxyEvent =
  evt_type :: ProxyEventType
  evt_route :: "ProxyRoute option"
  evt_error :: "string option"
  timestamp :: string

text \<open>The listening \<^verbatim>\<open>http.Server\<close>, with the port it is bound to.\<close>

datatype http_server = Server nat

text \<open>
  The fields of \<^verbatim>\<open>LocalProxyService\<close>: \<open>server\<close>, \<open>routes\<close> (a JavaScript \<^verbatim>\<open>Map\<close>, which
  keeps insertion order: an association list) and \<open>port\<close>. The remaining fields record
  what the service does to the outside: \<open>listeners\<close> are the subscribers of the
  \<^verbatim>\<open>'event'\<close> channel in registration order, \<open>published\<close> is the sequence of
  \<^verbatim>\<open>emit('event', evt)\<close> calls, \<open>delivered\<close> the sequence of listener invocations, and
  \<open>clock\<close> counts the readings of the system clock (\<^verbatim>\<open>new Date()\<close>) made so far.
  An event carries the route as it was when the event was published.
\<close>

record LocalProxyService =
  server :: "http_server option"
  routes :: "(string \<times> ProxyRoute) list"
  port :: "nat option"
  listeners :: "nat list"
  published :: "ProxyEvent list"
  delivered :: "(nat \<times> ProxyEvent) list"
  clock :: nat

text \<open>
  What the operating system answers. \<open>tryPort i p\<close> is the outcome of the \<open>i\<close>-th probe of
  one port selection, made on port \<open>p\<close> (bind and release a test listener on loopback);
  \<open>ephemeral\<close> is the port of the listener bound on port 0 (\<open>None\<close>: the bind raised
  \<^verbatim>\<open>'error'\<close>); \<open>listen p\<close> is the outcome of the real bind (\<open>None\<close>: listening,
  \<open>Some msg\<close>: an \<^verbatim>\<open>'error'\<close> with that message); \<open>now n\<close> is the \<open>n\<close>-th reading of the
  clock as an ISO string. Ports are natural numbers in the range the platform accepts.
\<close>

record os =
  tryPort :: "nat \<Rightarrow> nat \<Rightarrow> bool"
  ephemeral :: "nat option"
  listen :: "nat \<Rightarrow> string option"
  now :: "nat \<Rightarrow> string"

datatype proxy_error = InvalidName string | DuplicateName string

record start_result =
  ok :: bool
  result_port :: "nat option"
  result_error :: "string option"

record addRoute_opts =
  opt_taskId :: "string option"
  opt_targetHost :: "string option"

definition DEFAULT_PORTS :: "nat list" where
  "DEFAULT_PORTS = [9000, 9001, 9002, 9100]"

definition initial :: LocalProxyService where
  "initial = \<lparr>server = None, routes = [], port = None, listeners = [], published = [],
     delivered = [], clock = 0\<rparr>"

section \<open>Helpers\<close>

text \<open>Decimal rendering of a number inside a template literal.\<close>

fun dec :: "nat \<Rightarrow> string" where
  "dec n = (if n < 10 then [''0123456789'' ! n]
            else dec (n div 10) @ [''0123456789'' ! (n mod 10)])"

declare dec.simps [simp del]

text \<open>\<^verbatim>\<open>${this.port}\<close> where the port is \<^verbatim>\<open>number | null\<close>.\<close>

definition show_port :: "nat option \<Rightarrow> string" where
  "show_port p = (case p of None \<Rightarrow> ''null'' | Some n \<Rightarrow> dec n)"

text \<open>The em dash of the source's messages, in UTF-8.\<close>

definition emdash :: string where
  "emdash = [CHR 0xE2, CHR 0x80, CHR 0x94]"

definition emitProxyEvent ::
  "os \<Rightarrow> ProxyEventType \<Rightarrow> ProxyRoute option \<Rightarrow> string option \<Rightarrow> LocalProxyService
     \<Rightarrow> LocalProxyService" where
  "emitProxyEvent e ty r err s =
     (let evt = \<lparr>evt_type = ty, evt_route = r, evt_error = err, timestamp = now e (clock s)\<rparr>
      in s\<lparr>clock := Suc (clock s),
           published := published s @ [evt],
           delivered := delivered s @ map (\<lambda>l. (l, evt)) (listeners s)\<rparr>)"

definition onEvent :: "nat \<Rightarrow> LocalProxyService \<Rightarrow> LocalProxyService" where
  "onEvent l s = s\<lparr>listeners := listeners s @ [l]\<rparr>"

text \<open>The unsubscribe handle returned by \<open>onEvent\<close>: removes the latest registration.\<close>

definition offEvent :: "nat \<Rightarrow> LocalProxyService \<Rightarrow> LocalProxyService" where
  "offEvent l s = s\<lparr>listeners := rev (remove1 l (rev (listeners s)))\<rparr>"

text \<open>The events one listener has been called with, in the order of the calls.\<close>

definition received :: "nat \<Rightarrow> LocalProxyService \<Rightarrow> ProxyEvent list" where
  "received l s = map snd (filter (\<lambda>d. fst d = l) (delivered s))"

section \<open>Port selection\<close>

text \<open>The loop \<^verbatim>\<open>for (const p of preferred) if (await tryPort(p)) return p;\<close>\<close>

fun probe :: "(nat \<Rightarrow> nat \<Rightarrow> bool) \<Rightarrow> nat \<Rightarrow> nat list \<Rightarrow> nat option" where
  "probe t i [] = None"
| "probe t i (p # ps) = (if t i p then Some p else probe t (Suc i) ps)"

definition pickAvailablePort :: "os \<Rightarrow> nat list \<Rightarrow> nat" where
  "pickAvailablePort e preferred =
     (case probe (tryPort e) 0 preferred of
        Some p \<Rightarrow> p
      | None \<Rightarrow>
          (case ephemeral e of
             None \<Rightarrow> 9000
           | Some p \<Rightarrow> if p = 0 then 9000 else p))"

text \<open>\<^verbatim>\<open>port ? [port, ...DEFAULT_PORTS] : DEFAULT_PORTS\<close>; 0 is falsy.\<close>

definition candidates :: "nat option \<Rightarrow> nat list" where
  "candidates p =
     (case p of
        None \<Rightarrow> DEFAULT_PORTS
      | Some n \<Rightarrow> if n = 0 then DEFAULT_PORTS else n # DEFAULT_PORTS)"

section \<open>Lifecycle and registry\<close>

text \<open>
  Each operation is one step of a single caller that awaits every call before the next;
  it takes the service and returns the service after the call with the call's result.
\<close>

definition start ::
  "os \<Rightarrow> nat option \<Rightarrow> LocalProxyService \<Rightarrow> LocalProxyService \<times> start_result" where
  "start e p s =
     (if server s \<noteq> None then
        (s, \<lparr>ok = True, result_port = port s, result_error = None\<rparr>)
      else
        (let chosen = pickAvailablePort e (candidates p) in
         case listen e chosen of
           None \<Rightarrow>
             (emitProxyEvent e Ev_started None None
                (s\<lparr>server := Some (Server chosen), port := Some chosen\<rparr>),
              \<lparr>ok = True, result_port = Some chosen, result_error = None\<rparr>)
         | Some msg \<Rightarrow>
             (emitProxyEvent e Ev_error None (Some msg) s,
              \<lparr>ok = False, result_port = None,
               result_error = Some (''Failed to listen on port '' @ dec chosen)\<rparr>)))"

definition stop :: "os \<Rightarrow> LocalProxyService \<Rightarrow> LocalProxyService \<times> bool" where
  "stop e s =
     (if server s = None then (s, True)
      else (emitProxyEvent e Ev_stopped None None
              (s\<lparr>server := None, port := None, routes := []\<rparr>), True))"

definition addRoute ::
  "os \<Rightarrow> string \<Rightarrow> nat \<Rightarrow> addRoute_opts option \<Rightarrow> LocalProxyService
     \<Rightarrow> LocalProxyService \<times> (proxy_error + ProxyRoute)" where
  "addRoute e nm tp opts s =
     (if \<not> rx_test SLUG_RE nm then
        (s, Inl (InvalidName (''Invalid route name: \"'' @ nm @ ''\" '' @ emdash
                   @ '' must be lowercase alphanumeric with hyphens'')))
      else if map_of (routes s) nm \<noteq> None then
        (s, Inl (DuplicateName (''Route \"'' @ nm @ ''\" already exists'')))
      else
        (let s1 = (if server s = None then fst (start e None s) else s);
             route = \<lparr>name = nm,
                      targetPort = tp,
                      targetHost =
                        (case opts of
                           None \<Rightarrow> ''127.0.0.1''
                         | Some v \<Rightarrow>
                             (case opt_targetHost v of
                                None \<Rightarrow> ''127.0.0.1''
                              | Some h \<Rightarrow> if h = [] then ''127.0.0.1'' else h)),
                      status = St_running,
                      taskId = (case opts of None \<Rightarrow> None | Some v \<Rightarrow> opt_taskId v),
                      url = ''http://'' @ nm @ ''.localhost:'' @ show_port (port s1),
                      registeredAt = now e (clock s1),
                      lastAccessed = None\<rparr>;
             s2 = s1\<lparr>clock := Suc (clock s1), routes := AList.update nm route (routes s1)\<rparr>
         in (emitProxyEvent e Ev_route_added (Some route) None s2, Inr route)))"

definition removeRoute :: "os \<Rightarrow> string \<Rightarrow> LocalProxyService \<Rightarrow> LocalProxyService \<times> bool" where
  "removeRoute e nm s =
     (case map_of (routes s) nm of
        None \<Rightarrow> (s, False)
      | Some route \<Rightarrow>
          (emitProxyEvent e Ev_route_removed (Some route) None
             (s\<lparr>routes := AList.delete nm (routes s)\<rparr>), True))"

definition updateRouteStatus ::
  "os \<Rightarrow> string \<Rightarrow> ProxyRouteStatus \<Rightarrow> LocalProxyService \<Rightarrow> LocalProxyService \<times> bool" where
  "updateRouteStatus e nm st s =
     (case map_of (routes s) nm of
        None \<Rightarrow> (s, False)
      | Some route \<Rightarrow>
          (let route' = route\<lparr>status := st\<rparr>
           in (emitProxyEvent e Ev_route_status (Some route') None
                 (s\<lparr>routes := AList.update nm route' (routes s)\<rparr>), True)))"

definition getRoute :: "string \<Rightarrow> LocalProxyService \<Rightarrow> ProxyRoute option" where
  "getRoute nm s = map_of (routes s) nm"

definition getRoutes :: "LocalProxyService \<Rightarrow> ProxyRoute list" where
  "getRoutes s = map snd (routes s)"

definition getState :: "LocalProxyService \<Rightarrow> ProxyState" where
  "getState s = \<lparr>running = (server s \<noteq> None), state_port = port s, state_routes = getRoutes s\<rparr>"

subsection \<open>The suspension points of \<open>start\<close> and \<open>addRoute\<close>\<close>

text \<open>
  \<open>start\<close> and \<open>addRoute\<close> above are the calls of a caller that awaits each call before
  making the next. Both are \<^verbatim>\<open>async\<close>: \<open>start\<close> suspends after its already-running check
  (at \<^verbatim>\<open>await this.pickAvailablePort(preferred)\<close>), and \<open>addRoute\<close> on a stopped engine
  suspends after its two checks (at \<^verbatim>\<open>await this.start()\<close>), so that calls made without
  awaiting overlap. The parts between the suspension points run without interruption:
  \<open>addRoute_checks\<close> is the two checks of \<open>addRoute\<close>, \<open>start_body\<close> is \<open>start\<close> from
  the choice of the port to the outcome of the bind, \<open>addRoute_finish\<close> is \<open>addRoute\<close> from
  the construction of the route to its return.
\<close>

definition addRoute_checks :: "string \<Rightarrow> LocalProxyService \<Rightarrow> proxy_error option" where
  "addRoute_checks nm s =
     (if \<not> rx_test SLUG_RE nm then
        Some (InvalidName (''Invalid route name: \"'' @ nm @ ''\" '' @ emdash
                @ '' must be lowercase alphanumeric with hyphens''))
      else if map_of (routes s) nm \<noteq> None then
        Some (DuplicateName (''Route \"'' @ nm @ ''\" already exists''))
      else None)"

definition start_body ::
  "os \<Rightarrow> nat option \<Rightarrow> LocalProxyService \<Rightarrow> LocalProxyService \<times> start_result" where
  "start_body e p s =
     (let chosen = pickAvailablePort e (candidates p) in
      case listen e chosen of
        None \<Rightarrow>
          (emitProxyEvent e Ev_started None None
             (s\<lparr>server := Some (Server chosen), port := Some chosen\<rparr>),
           \<lparr>ok = True, result_port = Some chosen, result_error = None\<rparr>)
      | Some msg \<Rightarrow>
          (emitProxyEvent e Ev_error None (Some msg) s,
           \<lparr>ok = False, result_port = None,
            result_error = Some (''Failed to listen on port '' @ dec chosen)\<rparr>))"

definition addRoute_finish ::
  "os \<Rightarrow> string \<Rightarrow> nat \<Rightarrow> addRoute_opts option \<Rightarrow> LocalProxyService
     \<Rightarrow> LocalProxyService \<times> ProxyRoute" where
  "addRoute_finish e nm tp opts s1 =
     (let route = \<lparr>name = nm,
                   targetPort = tp,
                   targetHost =
                     (case opts of
                        None \<Rightarrow> ''127.0.0.1''
                      | Some v \<Rightarrow>
                          (case opt_targetHost v of
                             None \<Rightarrow> ''127.0.0.1''
                           | Some h \<Rightarrow> if h = [] then ''127.0.0.1'' else h)),
                   status = St_running,
                   taskId = (case opts of None \<Rightarrow> None | Some v \<Rightarrow> opt_taskId v),
                   url = ''http://'' @ nm @ ''.localhost:'' @ show_port (port s1),
                   registeredAt = now e (clock s1),
                   lastAccessed = None\<rparr>;
          s2 = s1\<lparr>clock := Suc (clock s1), routes := AList.update nm route (routes s1)\<rparr>
      in (emitProxyEvent e Ev_route_added (Some route) None s2, route))"

text \<open>
  Two routes are the same registration when they agree on everything but the two fields
  the service changes after creation, \<open>status\<close> and \<open>lastAccessed\<close>.
\<close>

definition same_registration :: "ProxyRoute \<Rightarrow> ProxyRoute \<Rightarrow> bool" where
  "same_registration r r' \<longleftrightarrow>
     name r' = name r \<and> targetPort r' = targetPort r \<and> targetHost r' = targetHost r \<and>
     taskId r' = taskId r \<and> url r' = url r \<and> registeredAt r' = registeredAt r"

definition registered :: "string \<Rightarrow> ProxyRoute \<Rightarrow> LocalProxyService \<Rightarrow> bool" where
  "registered nm r s \<longleftrightarrow>
     (case map_of (routes s) nm of None \<Rightarrow> False | Some r' \<Rightarrow> same_registration r r')"

section \<open>Request handling\<close>

text \<open>
  Of an incoming request the handlers read the header block (names in lower case, as the
  platform delivers them), the URL, the method and the protocol version.
\<close>

record IncomingMessage =
  headers :: "(string \<times> string) list"
  req_url :: "string option"
  req_method :: string
  httpVersion :: string

text \<open>\<^verbatim>\<open>req.headers.host || ''\<close> matched against the Host pattern.\<close>

definition extractSubdomain :: "IncomingMessage \<Rightarrow> string option" where
  "extractSubdomain req =
     (let host = (case map_of (headers req) ''host'' of None \<Rightarrow> [] | Some h \<Rightarrow> h)
      in rx_group1 HOST_RE_group HOST_RE_tail host)"

text \<open>
  The body of a response: literal text, the JSON rendering of the route list or the static
  dashboard page (the last two belong to the control surface).
\<close>

datatype http_body = Text string | Json "ProxyRoute list" | Dashboard

record request_options =
  opt_hostname :: string
  opt_port :: nat
  opt_path :: "string option"
  opt_method :: string
  opt_headers :: "(string \<times> string) list"

text \<open>
  What \<open>handleRequest\<close> does with the client: it either writes a framed response
  (\<^verbatim>\<open>writeHead\<close> and \<^verbatim>\<open>end\<close>) without contacting any backend, or opens the outbound
  request \<^verbatim>\<open>http.request(options)\<close> and pipes the client's request into it.
\<close>

datatype http_action =
    Respond nat "(string \<times> string) list" http_body
  | Forward request_options

definition handleRequest ::
  "os \<Rightarrow> IncomingMessage \<Rightarrow> LocalProxyService \<Rightarrow> LocalProxyService \<times> http_action" where
  "handleRequest e req s =
     (case extractSubdomain req of
        None \<Rightarrow>
          (if (case req_url req of None \<Rightarrow> ''/'' | Some u \<Rightarrow> if u = [] then ''/'' else u)
                = ''/api/routes''
           then (s, Respond 200 [(''Content-Type'', ''application/json'')] (Json (getRoutes s)))
           else (s, Respond 200 [(''Content-Type'', ''text/html; charset=utf-8'')] Dashboard))
      | Some subdomain \<Rightarrow>
          (if subdomain = [] then
             (if (case req_url req of None \<Rightarrow> ''/'' | Some u \<Rightarrow> if u = [] then ''/'' else u)
                   = ''/api/routes''
              then (s, Respond 200 [(''Content-Type'', ''application/json'')] (Json (getRoutes s)))
              else (s, Respond 200 [(''Content-Type'', ''text/html; charset=utf-8'')] Dashboard))
           else
             (case map_of (routes s) subdomain of
                None \<Rightarrow>
                  (s, Respond 502 [(''Content-Type'', ''text/html; charset=utf-8'')]
                        (Text (''<html><body style=\"background:#1a1a2e;color:#e0e0e0;font-family:system-ui;padding:2rem\">''
                           @ ''<h1>502 '' @ emdash @ '' Unknown route</h1>''
                           @ ''<p>No route registered for <code>'' @ subdomain @ ''</code>.</p>''
                           @ ''<p><a href=\"http://localhost:'' @ show_port (port s)
                           @ ''\" style=\"color:#7c9aff\">View dashboard</a></p>''
                           @ ''</body></html>'')))
              | Some route \<Rightarrow>
                  (s\<lparr>clock := Suc (clock s),
                     routes := AList.update subdomain
                                 (route\<lparr>lastAccessed := Some (now e (clock s))\<rparr>) (routes s)\<rparr>,
                   Forward \<lparr>opt_hostname = targetHost route,
                            opt_port = targetPort route,
                            opt_path = req_url req,
                            opt_method = req_method req,
                            opt_headers =
                              AList.update ''host''
                                (targetHost route @ '':'' @ dec (targetPort route))
                                (headers req)\<rparr>))))"

section \<open>WebSocket passthrough\<close>

text \<open>
  What \<open>handleUpgrade\<close> does with the client socket: \<open>Destroy\<close> is
  \<^verbatim>\<open>clientSocket.destroy()\<close> with nothing written to it; \<open>Tunnel host p hs\<close> opens the raw
  connection \<^verbatim>\<open>net.createConnection({host, port})\<close> and, once connected, writes the
  handshake \<open>hs\<close> (then the buffered head) to the backend and pipes both sockets into
  each other.
\<close>

datatype upgrade_action = Destroy | Tunnel string nat string

definition toLowerCase :: "string \<Rightarrow> string" where
  "toLowerCase s =
     map (\<lambda>c. if (65::nat) \<le> of_char c \<and> of_char c \<le> (90::nat)
              then char_of (of_char c + (32::nat)) else c) s"

fun join :: "string \<Rightarrow> string list \<Rightarrow> string" where
  "join sep [] = []"
| "join sep [x] = x"
| "join sep (x # y # ys) = x @ sep @ join sep (y # ys)"

definition CRLF :: string where
  "CRLF = [CHR 0x0D, CHR 0x0A]"

definition handleUpgrade ::
  "os \<Rightarrow> IncomingMessage \<Rightarrow> LocalProxyService \<Rightarrow> LocalProxyService \<times> upgrade_action" where
  "handleUpgrade e req s =
     (case extractSubdomain req of
        None \<Rightarrow> (s, Destroy)
      | Some subdomain \<Rightarrow>
          (if subdomain = [] then (s, Destroy)
           else
             (case map_of (routes s) subdomain of
                None \<Rightarrow> (s, Destroy)
              | Some route \<Rightarrow>
                  (s\<lparr>clock := Suc (clock s),
                     routes := AList.update subdomain
                                 (route\<lparr>lastAccessed := Some (now e (clock s))\<rparr>) (routes s)\<rparr>,
                   Tunnel (targetHost route) (targetPort route)
                     (req_method req @ '' ''
                        @ (case req_url req of None \<Rightarrow> ''undefined'' | Some u \<Rightarrow> u)
                        @ '' HTTP/'' @ httpVersion req @ CRLF
                        @ ''host: '' @ targetHost route @ '':'' @ dec (targetPort route) @ CRLF
                        @ join CRLF
                            (map (\<lambda>(k, v). k @ '': '' @ v)
                               (filter (\<lambda>(k, v). toLowerCase k \<noteq> ''host'') (headers req)))
                        @ CRLF @ CRLF)))))"

section \<open>Call sequences and sample environments\<close>

text \<open>
  The calls a single caller can make on the service, and the requests the listening
  socket can hand to the two handlers; \<open>run\<close> performs a sequence of them in order. A
  request reaches a handler only while the server is listening.
\<close>

datatype call =
    Start os "nat option"
  | Stop os
  | AddRoute os string nat "addRoute_opts option"
  | RemoveRoute os string
  | UpdateRouteStatus os string ProxyRouteStatus
  | OnEvent nat
  | OffEvent nat
  | HandleRequest os IncomingMessage
  | HandleUpgrade os IncomingMessage

fun step :: "LocalProxyService \<Rightarrow> call \<Rightarrow> LocalProxyService" where
  "step s (Start e p) = fst (start e p s)"
| "step s (Stop e) = fst (stop e s)"
| "step s (AddRoute e nm tp opts) = fst (addRoute e nm tp opts s)"
| "step s (RemoveRoute e nm) = fst (removeRoute e nm s)"
| "step s (UpdateRouteStatus e nm st) = fst (updateRouteStatus e nm st s)"
| "step s (OnEvent l) = onEvent l s"
| "step s (OffEvent l) = offEvent l s"
| "step s (HandleRequest e req) = (if server s = None then s else fst (handleRequest e req s))"
| "step s (HandleUpgrade e req) = (if server s = None then s else fst (handleUpgrade e req s))"

definition run :: "call list \<Rightarrow> LocalProxyService \<Rightarrow> LocalProxyService" where
  "run cs s = foldl step s cs"


text \<open>
  Two behaviours of the operating system. In \<open>os_free\<close> every probe and every bind
  succeeds. In \<open>os_race\<close> every probe succeeds but the real bind fails with
  \<^verbatim>\<open>EADDRINUSE\<close>: another process took the port between the probe and the bind.
\<close>

definition os_free :: os where
  "os_free = \<lparr>tryPort = (\<lambda>i p. True), ephemeral = Some 49152, listen = (\<lambda>p. None),
     now = (\<lambda>n. ''2026-01-01T00:00:00.000Z'')\<rparr>"

definition os_race :: os where
  "os_race = \<lparr>tryPort = (\<lambda>i p. True), ephemeral = Some 49152,
     listen = (\<lambda>p. Some ''listen EADDRINUSE: address already in use 127.0.0.1:9000''),
     now = (\<lambda>n. ''2026-01-01T00:00:00.000Z'')\<rparr>"

text \<open>A \<^verbatim>\<open>GET /\<close> request with the given Host header and no other header.\<close>

definition request :: "string \<Rightarrow> IncomingMessage" where
  "request h = \<lparr>headers = [(''host'', h)], req_url = Some ''/'', req_method = ''GET'',
     httpVersion = ''1.1''\<rparr>"

section \<open>The regular expressions\<close>

lemma rx_run_Star_Class_Nil: "rx_run (Star (Class cs)) [] = [] # []"
  by (subst rx_run.simps(5)) (simp add: rx_run.simps(1))

lemma rx_run_Star_Class_Cons:
  "rx_run (Star (Class cs)) (c # t) =
     (if c \<in> set cs then rx_run (Star (Class cs)) t @ [c # t] else [c # t])"
  by (subst rx_run.simps(5)) (simp add: rx_run.simps(1))

lemma mem_rx_run_Star_Class:
  "u \<in> set (rx_run (Star (Class cs)) s) \<longleftrightarrow> (\<exists>p. s = p @ u \<and> set p \<subseteq> set cs)"
proof (induction s)
  case Nil
  show ?case by (simp only: rx_run_Star_Class_Nil) auto
next
  case (Cons c t)
  have split: "(\<exists>p. c # t = p @ u \<and> set p \<subseteq> set cs) \<longleftrightarrow>
               u = c # t \<or> (c \<in> set cs \<and> (\<exists>p. t = p @ u \<and> set p \<subseteq> set cs))"
  proof
    assume "\<exists>p. c # t = p @ u \<and> set p \<subseteq> set cs"
    then obtain p where p: "c # t = p @ u" "set p \<subseteq> set cs" by blast
    show "u = c # t \<or> (c \<in> set cs \<and> (\<exists>p. t = p @ u \<and> set p \<subseteq> set cs))"
    proof (cases p)
      case Nil
      with p show ?thesis by simp
    next
      case (Cons a q)
      with p have "c \<in> set cs" "t = q @ u" "set q \<subseteq> set cs" by simp_all
      then show ?thesis by blast
    qed
  next
    assume "u = c # t \<or> (c \<in> set cs \<and> (\<exists>p. t = p @ u \<and> set p \<subseteq> set cs))"
    then show "\<exists>p. c # t = p @ u \<and> set p \<subseteq> set cs"
    proof
      assume "u = c # t"
      then have "c # t = [] @ u \<and> set [] \<subseteq> set cs" by simp
      then show ?thesis by blast
    next
      assume "c \<in> set cs \<and> (\<exists>p. t = p @ u \<and> set p \<subseteq> set cs)"
      then obtain p where "c \<in> set cs" "t = p @ u" "set p \<subseteq> set cs" by blast
      then have "c # t = (c # p) @ u \<and> set (c # p) \<subseteq> set cs" by simp
      then show ?thesis by blast
    qed
  qed
  show ?case
    unfolding split using Cons.IH
    by (simp only: rx_run_Star_Class_Cons split: if_splits) auto
qed

lemma mem_rx_run_Class:
  "u \<in> set (rx_run (Class cs) s) \<longleftrightarrow> (\<exists>c. s = c # u \<and> c \<in> set cs)"
  by (cases s) (auto simp: rx_run.simps(1))

lemma mem_rx_run_Seq:
  "u \<in> set (rx_run (Seq a b) s) \<longleftrightarrow> (\<exists>t \<in> set (rx_run a s). u \<in> set (rx_run b t))"
  by (simp add: rx_run.simps(3))

lemma mem_rx_run_Opt:
  "u \<in> set (rx_run (Opt a) s) \<longleftrightarrow> u \<in> set (rx_run a s) \<or> u = s"
  by (auto simp: rx_run.simps(4))

lemma mem_rx_run_Lit:
  "u \<in> set (rx_run (Lit l) s) \<longleftrightarrow> s = l @ u"
proof
  assume "u \<in> set (rx_run (Lit l) s)"
  then have "take (length l) s = l" "u = drop (length l) s"
    by (auto simp: rx_run.simps(2) split: if_splits)
  then show "s = l @ u" by (metis append_take_drop_id)
next
  assume "s = l @ u"
  then show "u \<in> set (rx_run (Lit l) s)" by (simp add: rx_run.simps(2))
qed

lemma az09_subset: "set az09 \<subseteq> set az09h"
  by (simp add: az09_def az09h_def)

lemma rx_test_SLUG_RE_unfold:
  "rx_test SLUG_RE s \<longleftrightarrow>
     (\<exists>c t. s = c # t \<and> c \<in> set az09 \<and>
        (t = [] \<or> (\<exists>p d. t = p @ [d] \<and> set p \<subseteq> set az09h \<and> d \<in> set az09)))"
proof -
  have "rx_test SLUG_RE s \<longleftrightarrow>
        (\<exists>t \<in> set (rx_run (Class az09) s).
           t = [] \<or> (\<exists>u \<in> set (rx_run (Star (Class az09h)) t). [] \<in> set (rx_run (Class az09) u)))"
    unfolding rx_test_def SLUG_RE_def
    by (simp only: mem_rx_run_Seq mem_rx_run_Opt) blast
  also have "\<dots> \<longleftrightarrow>
     (\<exists>c t. s = c # t \<and> c \<in> set az09 \<and>
        (t = [] \<or> (\<exists>p d. t = p @ [d] \<and> set p \<subseteq> set az09h \<and> d \<in> set az09)))"
    unfolding mem_rx_run_Class mem_rx_run_Star_Class Bex_def by blast
  finally show ?thesis .
qed

lemma rx_test_SLUG_RE_iff: "rx_test SLUG_RE s \<longleftrightarrow> slug s"
proof
  assume "rx_test SLUG_RE s"
  then obtain c t where s: "s = c # t" and c: "c \<in> set az09"
    and t: "t = [] \<or> (\<exists>p d. t = p @ [d] \<and> set p \<subseteq> set az09h \<and> d \<in> set az09)"
    unfolding rx_test_SLUG_RE_unfold by blast
  from t show "slug s"
  proof
    assume "t = []"
    with s c az09_subset show ?thesis by (auto simp: slug_def)
  next
    assume "\<exists>p d. t = p @ [d] \<and> set p \<subseteq> set az09h \<and> d \<in> set az09"
    then obtain p d where "t = p @ [d]" "set p \<subseteq> set az09h" "d \<in> set az09" by blast
    with s c az09_subset show ?thesis by (auto simp: slug_def)
  qed
next
  assume sl: "slug s"
  then obtain c t where s: "s = c # t" and c: "c \<in> set az09"
    by (cases s) (auto simp: slug_def)
  show "rx_test SLUG_RE s"
  proof (cases "t = []")
    case True
    with s c show ?thesis unfolding rx_test_SLUG_RE_unfold by blast
  next
    case False
    then obtain p d where t: "t = p @ [d]" by (metis rev_exhaust)
    with sl s have "d \<in> set az09" "set p \<subseteq> set az09h"
      by (auto simp: slug_def)
    with s c t show ?thesis unfolding rx_test_SLUG_RE_unfold by blast
  qed
qed

lemma host_tail_iff:
  "host_tail k \<longleftrightarrow>
     k = ''.localhost'' \<or> (\<exists>ds. k = ''.localhost:'' @ ds \<and> ds \<noteq> [] \<and> set ds \<subseteq> set digit)"
proof -
  have "(take 11 k = ''.localhost:'' \<and> drop 11 k \<noteq> [] \<and> set (drop 11 k) \<subseteq> set digit)
        \<longleftrightarrow> (\<exists>ds. k = ''.localhost:'' @ ds \<and> ds \<noteq> [] \<and> set ds \<subseteq> set digit)"
  proof
    assume a: "take 11 k = ''.localhost:'' \<and> drop 11 k \<noteq> [] \<and> set (drop 11 k) \<subseteq> set digit"
    then have "k = ''.localhost:'' @ drop 11 k" by (metis append_take_drop_id)
    with a show "\<exists>ds. k = ''.localhost:'' @ ds \<and> ds \<noteq> [] \<and> set ds \<subseteq> set digit" by blast
  next
    assume "\<exists>ds. k = ''.localhost:'' @ ds \<and> ds \<noteq> [] \<and> set ds \<subseteq> set digit"
    then show "take 11 k = ''.localhost:'' \<and> drop 11 k \<noteq> [] \<and> set (drop 11 k) \<subseteq> set digit"
      by auto
  qed
  then show ?thesis unfolding host_tail_def by simp
qed

lemma mem_rx_run_HOST_RE_group:
  "u \<in> set (rx_run HOST_RE_group s) \<longleftrightarrow>
     (\<exists>c p. s = c # p @ u \<and> c \<in> set az09 \<and> set p \<subseteq> set az09h)"
proof -
  have "u \<in> set (rx_run HOST_RE_group s) \<longleftrightarrow>
        (\<exists>c p t. s = c # p @ t \<and> c \<in> set az09 \<and> set p \<subseteq> set az09h \<and>
           ((\<exists>d. t = d # u \<and> d \<in> set az09) \<or> u = t))"
    unfolding HOST_RE_group_def mem_rx_run_Seq mem_rx_run_Opt mem_rx_run_Class
      mem_rx_run_Star_Class Bex_def
    by auto
  also have "\<dots> \<longleftrightarrow> (\<exists>c p. s = c # p @ u \<and> c \<in> set az09 \<and> set p \<subseteq> set az09h)"
  proof
    assume "\<exists>c p t. s = c # p @ t \<and> c \<in> set az09 \<and> set p \<subseteq> set az09h \<and>
           ((\<exists>d. t = d # u \<and> d \<in> set az09) \<or> u = t)"
    then obtain c p t where *: "s = c # p @ t" "c \<in> set az09" "set p \<subseteq> set az09h"
      and t: "(\<exists>d. t = d # u \<and> d \<in> set az09) \<or> u = t" by blast
    from t show "\<exists>c p. s = c # p @ u \<and> c \<in> set az09 \<and> set p \<subseteq> set az09h"
    proof
      assume "\<exists>d. t = d # u \<and> d \<in> set az09"
      then obtain d where "t = d # u" "d \<in> set az09" by blast
      with * az09_subset have "s = c # (p @ [d]) @ u \<and> c \<in> set az09 \<and> set (p @ [d]) \<subseteq> set az09h"
        by auto
      then show ?thesis by blast
    next
      assume "u = t"
      with * show ?thesis by blast
    qed
  next
    assume "\<exists>c p. s = c # p @ u \<and> c \<in> set az09 \<and> set p \<subseteq> set az09h"
    then show "\<exists>c p t. s = c # p @ t \<and> c \<in> set az09 \<and> set p \<subseteq> set az09h \<and>
           ((\<exists>d. t = d # u \<and> d \<in> set az09) \<or> u = t)" by blast
  qed
  finally show ?thesis .
qed

lemma rx_test_HOST_RE_tail: "rx_test HOST_RE_tail k \<longleftrightarrow> host_tail k"
proof -
  have "rx_test HOST_RE_tail k \<longleftrightarrow>
        (\<exists>v. k = ''.localhost'' @ v \<and>
           ((\<exists>w. v = '':'' @ w \<and> (\<exists>d x. w = d # x \<and> d \<in> set digit \<and> set x \<subseteq> set digit))
            \<or> v = []))"
    unfolding rx_test_def HOST_RE_tail_def Plus_def mem_rx_run_Seq mem_rx_run_Opt
      mem_rx_run_Lit mem_rx_run_Class mem_rx_run_Star_Class Bex_def
    by auto
  also have "\<dots> \<longleftrightarrow> host_tail k"
    unfolding host_tail_iff
  proof
    assume "\<exists>v. k = ''.localhost'' @ v \<and>
           ((\<exists>w. v = '':'' @ w \<and> (\<exists>d x. w = d # x \<and> d \<in> set digit \<and> set x \<subseteq> set digit))
            \<or> v = [])"
    then obtain v where k: "k = ''.localhost'' @ v"
      and v: "(\<exists>w. v = '':'' @ w \<and> (\<exists>d x. w = d # x \<and> d \<in> set digit \<and> set x \<subseteq> set digit))
            \<or> v = []" by blast
    from v show "k = ''.localhost'' \<or>
        (\<exists>ds. k = ''.localhost:'' @ ds \<and> ds \<noteq> [] \<and> set ds \<subseteq> set digit)"
    proof
      assume "\<exists>w. v = '':'' @ w \<and> (\<exists>d x. w = d # x \<and> d \<in> set digit \<and> set x \<subseteq> set digit)"
      then obtain d x where "v = '':'' @ d # x" "d \<in> set digit" "set x \<subseteq> set digit" by blast
      with k have "k = ''.localhost:'' @ (d # x) \<and> d # x \<noteq> [] \<and> set (d # x) \<subseteq> set digit"
        by simp
      then show ?thesis by blast
    next
      assume "v = []"
      with k show ?thesis by simp
    qed
  next
    assume "k = ''.localhost'' \<or>
        (\<exists>ds. k = ''.localhost:'' @ ds \<and> ds \<noteq> [] \<and> set ds \<subseteq> set digit)"
    then show "\<exists>v. k = ''.localhost'' @ v \<and>
           ((\<exists>w. v = '':'' @ w \<and> (\<exists>d x. w = d # x \<and> d \<in> set digit \<and> set x \<subseteq> set digit))
            \<or> v = [])"
    proof
      assume "k = ''.localhost''"
      then show ?thesis by simp
    next
      assume "\<exists>ds. k = ''.localhost:'' @ ds \<and> ds \<noteq> [] \<and> set ds \<subseteq> set digit"
      then obtain ds where ds: "k = ''.localhost:'' @ ds" "ds \<noteq> []" "set ds \<subseteq> set digit"
        by blast
      then obtain d x where "ds = d # x" by (cases ds) auto
      with ds have "k = ''.localhost'' @ ('':'' @ d # x)" "d \<in> set digit" "set x \<subseteq> set digit"
        by auto
      then show ?thesis by blast
    qed
  qed
  finally show ?thesis .
qed

lemma host_tail_Cons: "host_tail k \<Longrightarrow> \<exists>r. k = CHR ''.'' # r"
  unfolding host_tail_iff by auto

lemma dot_notin_az09h: "CHR ''.'' \<notin> set az09h"
  by (simp add: az09h_def)

lemma takeWhile_label:
  "set a \<subseteq> set az09h \<Longrightarrow> takeWhile (\<lambda>c. c \<in> set az09h) (a @ CHR ''.'' # r) = a"
  using dot_notin_az09h by (simp add: takeWhile_tail subset_iff)

lemma rx_group1_HOST_RE:
  "rx_group1 HOST_RE_group HOST_RE_tail h =
     (if \<exists>t \<in> set (rx_run HOST_RE_group h). rx_test HOST_RE_tail t
      then Some (takeWhile (\<lambda>c. c \<in> set az09h) h) else None)"
proof (cases "filter (rx_test HOST_RE_tail) (rx_run HOST_RE_group h)")
  case Nil
  then have "\<not> (\<exists>t \<in> set (rx_run HOST_RE_group h). rx_test HOST_RE_tail t)"
    by (simp add: filter_empty_conv)
  with Nil show ?thesis by (simp add: rx_group1_def)
next
  case (Cons t ts)
  then have "t \<in> set (filter (rx_test HOST_RE_tail) (rx_run HOST_RE_group h))" by simp
  then have mem: "t \<in> set (rx_run HOST_RE_group h)" and tl: "rx_test HOST_RE_tail t" by simp_all
  from mem obtain c p where h: "h = c # p @ t" and c: "c \<in> set az09" and p: "set p \<subseteq> set az09h"
    unfolding mem_rx_run_HOST_RE_group by blast
  from tl obtain r where t: "t = CHR ''.'' # r"
    unfolding rx_test_HOST_RE_tail by (blast dest: host_tail_Cons)
  have cp: "set (c # p) \<subseteq> set az09h" using c p az09_subset by auto
  have "takeWhile (\<lambda>c. c \<in> set az09h) h = c # p"
    using takeWhile_label [OF cp, of r] h t by simp
  moreover have "take (length h - length t) h = c # p" using h by simp
  moreover have "\<exists>t \<in> set (rx_run HOST_RE_group h). rx_test HOST_RE_tail t" using mem tl by blast
  ultimately show ?thesis using Cons by (simp add: rx_group1_def)
qed

lemma rx_group1_HOST_RE_iff:
  "rx_group1 HOST_RE_group HOST_RE_tail h = Some sub \<longleftrightarrow>
     (\<exists>c p k. sub = c # p \<and> c \<in> set az09 \<and> set p \<subseteq> set az09h \<and> h = sub @ k \<and> host_tail k)"
proof
  assume "rx_group1 HOST_RE_group HOST_RE_tail h = Some sub"
  then have ex: "\<exists>t \<in> set (rx_run HOST_RE_group h). rx_test HOST_RE_tail t"
    and sub: "sub = takeWhile (\<lambda>c. c \<in> set az09h) h"
    unfolding rx_group1_HOST_RE by (auto split: if_splits)
  from ex obtain t where mem: "t \<in> set (rx_run HOST_RE_group h)" and tl: "host_tail t"
    unfolding rx_test_HOST_RE_tail by blast
  from mem obtain c p where h: "h = c # p @ t" and c: "c \<in> set az09" and p: "set p \<subseteq> set az09h"
    unfolding mem_rx_run_HOST_RE_group by blast
  from tl obtain r where t: "t = CHR ''.'' # r" by (blast dest: host_tail_Cons)
  have cp: "set (c # p) \<subseteq> set az09h" using c p az09_subset by auto
  have "sub = c # p" using takeWhile_label [OF cp, of r] h t sub by simp
  with h c p tl show "\<exists>c p k. sub = c # p \<and> c \<in> set az09 \<and> set p \<subseteq> set az09h \<and> h = sub @ k \<and> host_tail k"
    by auto
next
  assume "\<exists>c p k. sub = c # p \<and> c \<in> set az09 \<and> set p \<subseteq> set az09h \<and> h = sub @ k \<and> host_tail k"
  then obtain c p k where sub: "sub = c # p" and c: "c \<in> set az09" and p: "set p \<subseteq> set az09h"
    and h: "h = sub @ k" and tl: "host_tail k" by blast
  from tl obtain r where k: "k = CHR ''.'' # r" by (blast dest: host_tail_Cons)
  have cp: "set (c # p) \<subseteq> set az09h" using c p az09_subset by auto
  have "k \<in> set (rx_run HOST_RE_group h)"
    unfolding mem_rx_run_HOST_RE_group using sub c p h by auto
  then have "\<exists>t \<in> set (rx_run HOST_RE_group h). rx_test HOST_RE_tail t"
    using tl rx_test_HOST_RE_tail by blast
  moreover have "takeWhile (\<lambda>c. c \<in> set az09h) h = sub"
    using takeWhile_label [OF cp, of r] h k sub by simp
  ultimately show "rx_group1 HOST_RE_group HOST_RE_tail h = Some sub"
    unfolding rx_group1_HOST_RE by simp
qed

lemma slug_Cons: "slug nm \<Longrightarrow> \<exists>c p. nm = c # p \<and> c \<in> set az09 \<and> set p \<subseteq> set az09h"
  by (cases nm) (auto simp: slug_def)

section \<open>Properties of the service\<close>

lemma emit_fields [simp]:
  "server (emitProxyEvent e ty r err s) = server s"
  "routes (emitProxyEvent e ty r err s) = routes s"
  "port (emitProxyEvent e ty r err s) = port s"
  "listeners (emitProxyEvent e ty r err s) = listeners s"
  "published (emitProxyEvent e ty r err s) =
     published s @ [\<lparr>evt_type = ty, evt_route = r, evt_error = err, timestamp = now e (clock s)\<rparr>]"
  "delivered (emitProxyEvent e ty r err s) =
     delivered s @ map (\<lambda>l. (l, \<lparr>evt_type = ty, evt_route = r, evt_error = err,
                                  timestamp = now e (clock s)\<rparr>)) (listeners s)"
  "clock (emitProxyEvent e ty r err s) = Suc (clock s)"
  by (simp_all add: emitProxyEvent_def Let_def)

lemma extractSubdomain_request [simp]:
  "extractSubdomain (request h) = rx_group1 HOST_RE_group HOST_RE_tail h"
  by (simp add: extractSubdomain_def request_def)

lemma extractSubdomain_nonempty: "extractSubdomain req = Some sub \<Longrightarrow> sub \<noteq> []"
  unfolding extractSubdomain_def Let_def rx_group1_HOST_RE_iff by blast

lemma probe_Some:
  "k < length ps \<Longrightarrow> t (i + k) (ps ! k) \<Longrightarrow> (\<forall>j<k. \<not> t (i + j) (ps ! j))
     \<Longrightarrow> probe t i ps = Some (ps ! k)"
proof (induction ps arbitrary: i k)
  case Nil
  then show ?case by simp
next
  case (Cons p ps)
  show ?case
  proof (cases k)
    case 0
    with Cons.prems show ?thesis by simp
  next
    case (Suc m)
    with Cons.prems have "\<not> t i p" by force
    moreover have "probe t (Suc i) ps = Some (ps ! m)"
    proof (rule Cons.IH)
      show "m < length ps" using Cons.prems Suc by simp
      show "t (Suc i + m) (ps ! m)" using Cons.prems Suc by simp
      show "\<forall>j<m. \<not> t (Suc i + j) (ps ! j)"
      proof (intro allI impI)
        fix j assume "j < m"
        then have "Suc j < k" using Suc by simp
        with Cons.prems have "\<not> t (i + Suc j) ((p # ps) ! Suc j)" by blast
        then show "\<not> t (Suc i + j) (ps ! j)" by simp
      qed
    qed
    ultimately show ?thesis using Suc by simp
  qed
qed

lemma probe_None:
  "(\<forall>j<length ps. \<not> t (i + j) (ps ! j)) \<Longrightarrow> probe t i ps = None"
proof (induction ps arbitrary: i)
  case Nil
  then show ?case by simp
next
  case (Cons p ps)
  from Cons.prems have "\<not> t i p" by force
  moreover have "probe t (Suc i) ps = None"
  proof (rule Cons.IH, intro allI impI)
    fix j assume "j < length ps"
    then have "Suc j < length (p # ps)" by simp
    with Cons.prems have "\<not> t (i + Suc j) ((p # ps) ! Suc j)" by blast
    then show "\<not> t (Suc i + j) (ps ! j)" by simp
  qed
  ultimately show ?case by simp
qed

text \<open>
  Claim C7. The candidates are the caller's preferred port (when one is given) followed by
  the four default ports. Port selection returns the first candidate, in order, whose
  probe succeeds; when every probe fails and the listener bound on port 0 reports the
  port \<open>q\<close> the operating system assigned, it returns \<open>q\<close>.
\<close>

theorem pickAvailablePort_first_free:
  "length DEFAULT_PORTS = 4 \<and>
   candidates None = DEFAULT_PORTS \<and>
   (0 < p \<longrightarrow> candidates (Some p) = p # DEFAULT_PORTS) \<and>
   (k < length ps \<and> tryPort e k (ps ! k) \<and> (\<forall>j<k. \<not> tryPort e j (ps ! j))
      \<longrightarrow> pickAvailablePort e ps = ps ! k) \<and>
   ((\<forall>j<length ps. \<not> tryPort e j (ps ! j)) \<and> ephemeral e = Some q \<and> 0 < q
      \<longrightarrow> pickAvailablePort e ps = q)"
proof (intro conjI impI)
  show "length DEFAULT_PORTS = 4" by (simp add: DEFAULT_PORTS_def)
  show "candidates None = DEFAULT_PORTS" by (simp add: candidates_def)
  show "candidates (Some p) = p # DEFAULT_PORTS" if "0 < p"
    using that by (simp add: candidates_def)
  show "pickAvailablePort e ps = ps ! k"
    if "k < length ps \<and> tryPort e k (ps ! k) \<and> (\<forall>j<k. \<not> tryPort e j (ps ! j))"
    using that probe_Some [of k ps "tryPort e" 0] by (simp add: pickAvailablePort_def)
  show "pickAvailablePort e ps = q"
    if "(\<forall>j<length ps. \<not> tryPort e j (ps ! j)) \<and> ephemeral e = Some q \<and> 0 < q"
    using that probe_None [of ps "tryPort e" 0] by (simp add: pickAvailablePort_def)
qed

text \<open>
  Claim C8. An Upgrade request whose Host header yields no subdomain, or a subdomain with
  no registered route, has its client socket destroyed: nothing is written to it, no
  backend is contacted and the service is left as it was.
\<close>

theorem handleUpgrade_destroys_client:
  assumes "extractSubdomain req = None \<or>
           (\<exists>sub. extractSubdomain req = Some sub \<and> map_of (routes s) sub = None)"
  shows "handleUpgrade e req s = (s, Destroy)"
  using assms by (auto simp: handleUpgrade_def)

text \<open>
  Claim C3. For every name that \<^verbatim>\<open>SLUG_RE\<close> rejects, \<open>addRoute\<close> fails with the invalid-name
  error and leaves the service, and so the registry, unchanged.
\<close>

theorem addRoute_invalid_name:
  assumes "\<not> rx_test SLUG_RE nm"
  shows "\<exists>msg. addRoute e nm tp opts s = (s, Inl (InvalidName msg))"
  using assms by (simp add: addRoute_def)

text \<open>
  Claim C10. Whenever \<open>addRoute\<close> fails, the service afterwards is the service before:
  server, port, registry, published and delivered events and clock are untouched. The
  failure does not depend on the operating system either, since both checks come before
  the automatic start.
\<close>

theorem addRoute_failure_changes_nothing:
  assumes "addRoute e nm tp opts s = (s', Inl err)"
  shows "s' = s \<and> (\<forall>e'. addRoute e' nm tp opts s = (s, Inl err))"
  using assms by (auto simp: addRoute_def Let_def split: if_splits)

text \<open>The names of the test suite, and the empty name, are rejected.\<close>

theorem addRoute_invalid_name_witness:
  "\<not> rx_test SLUG_RE ''UPPERCASE'' \<and> \<not> rx_test SLUG_RE ''-leading'' \<and>
   \<not> rx_test SLUG_RE ''has spaces'' \<and> \<not> rx_test SLUG_RE [] \<and>
   (\<exists>msg. addRoute os_free ''UPPERCASE'' 3000 None initial = (initial, Inl (InvalidName msg))) \<and>
   (\<exists>msg. addRoute os_free ''-leading'' 3000 None initial = (initial, Inl (InvalidName msg))) \<and>
   (\<exists>msg. addRoute os_free ''has spaces'' 3000 None initial = (initial, Inl (InvalidName msg))) \<and>
   (\<exists>msg. addRoute os_free [] 3000 None initial = (initial, Inl (InvalidName msg)))"
proof -
  have a: "\<not> rx_test SLUG_RE ''UPPERCASE''"
    unfolding rx_test_SLUG_RE_iff by (simp add: slug_def az09_def az09h_def)
  have b: "\<not> rx_test SLUG_RE ''-leading''"
    unfolding rx_test_SLUG_RE_iff by (simp add: slug_def az09_def az09h_def)
  have c: "\<not> rx_test SLUG_RE ''has spaces''"
    unfolding rx_test_SLUG_RE_iff by (simp add: slug_def az09_def az09h_def)
  have d: "\<not> rx_test SLUG_RE []"
    unfolding rx_test_SLUG_RE_iff by (simp add: slug_def)
  show ?thesis
    using a b c d
      addRoute_invalid_name [OF a, of os_free 3000 None initial]
      addRoute_invalid_name [OF b, of os_free 3000 None initial]
      addRoute_invalid_name [OF c, of os_free 3000 None initial]
      addRoute_invalid_name [OF d, of os_free 3000 None initial]
    by blast
qed

theorem addRoute_failure_changes_nothing_witness:
  "addRoute os_free ''-x'' 3000 None initial
     = (initial, Inl (InvalidName (''Invalid route name: \"-x\" '' @ emdash
                        @ '' must be lowercase alphanumeric with hyphens''))) \<and>
   (\<forall>e'. addRoute e' ''-x'' 3000 None initial
     = (initial, Inl (InvalidName (''Invalid route name: \"-x\" '' @ emdash
                        @ '' must be lowercase alphanumeric with hyphens''))))"
proof -
  have n: "\<not> rx_test SLUG_RE ''-x''"
    unfolding rx_test_SLUG_RE_iff by (simp add: slug_def az09_def az09h_def)
  have h: "addRoute os_free ''-x'' 3000 None initial
     = (initial, Inl (InvalidName (''Invalid route name: \"-x\" '' @ emdash
                        @ '' must be lowercase alphanumeric with hyphens'')))"
    using n by (simp add: addRoute_def)
  show ?thesis
    using h addRoute_failure_changes_nothing [OF h] by blast
qed

theorem pickAvailablePort_first_free_witness:
  "length DEFAULT_PORTS = 4 \<and> candidates None = DEFAULT_PORTS \<and>
   candidates (Some 8080) = 8080 # DEFAULT_PORTS \<and>
   pickAvailablePort (os_free\<lparr>tryPort := (\<lambda>i p. p = 9001)\<rparr>) (candidates (Some 8080)) = 9001 \<and>
   pickAvailablePort (os_free\<lparr>tryPort := (\<lambda>i p. False)\<rparr>) (candidates (Some 8080)) = 49152"
proof -
  let ?ps = "[8080, 9000, 9001, 9002, 9100] :: nat list"
  let ?e1 = "os_free\<lparr>tryPort := (\<lambda>i p. p = 9001)\<rparr>"
  let ?e2 = "os_free\<lparr>tryPort := (\<lambda>i p. False)\<rparr>"
  have c: "candidates (Some 8080) = ?ps" by (simp add: candidates_def DEFAULT_PORTS_def)
  have h1: "(2::nat) < length ?ps \<and> tryPort ?e1 2 (?ps ! 2) \<and> (\<forall>j<2. \<not> tryPort ?e1 j (?ps ! j))"
    by (simp add: os_free_def less_Suc_eq numeral_2_eq_2)
  have h2: "(\<forall>j<length ?ps. \<not> tryPort ?e2 j (?ps ! j)) \<and> ephemeral ?e2 = Some 49152 \<and> (0::nat) < 49152"
    by (simp add: os_free_def)
  have p1: "pickAvailablePort ?e1 ?ps = ?ps ! 2"
    using pickAvailablePort_first_free [of 8080 2 ?ps ?e1 49152] h1 by blast
  have p2: "pickAvailablePort ?e2 ?ps = 49152"
    using pickAvailablePort_first_free [of 8080 2 ?ps ?e2 49152] h2 by blast
  show ?thesis
    using p1 p2 by (simp add: c) (simp add: candidates_def DEFAULT_PORTS_def)
qed

theorem handleUpgrade_destroys_client_witness:
  "extractSubdomain (request ''localhost:9000'') = None \<and>
   handleUpgrade os_free (request ''localhost:9000'') (fst (start os_free None initial))
     = (fst (start os_free None initial), Destroy) \<and>
   extractSubdomain (request ''ghost.localhost:9000'') = Some ''ghost'' \<and>
   map_of (routes (fst (start os_free None initial))) ''ghost'' = None \<and>
   handleUpgrade os_free (request ''ghost.localhost:9000'') (fst (start os_free None initial))
     = (fst (start os_free None initial), Destroy)"
proof -
  let ?s = "fst (start os_free None initial)"
  have a: "extractSubdomain (request ''localhost:9000'') = None"
    by (simp add: rx_group1_def rx_run.simps rx_test_def HOST_RE_group_def HOST_RE_tail_def
          az09_def az09h_def digit_def Plus_def)
  have b: "extractSubdomain (request ''ghost.localhost:9000'') = Some ''ghost''"
    by (simp add: rx_group1_def rx_run.simps rx_test_def HOST_RE_group_def HOST_RE_tail_def
          az09_def az09h_def digit_def Plus_def)
  have r: "map_of (routes ?s) ''ghost'' = None"
    by (simp add: start_def initial_def os_free_def Let_def)
  show ?thesis
    using a b r
      handleUpgrade_destroys_client [of "request ''localhost:9000''" ?s os_free]
      handleUpgrade_destroys_client [of "request ''ghost.localhost:9000''" ?s os_free]
    by simp
qed

lemma sublist_unknown_route:
  "sublist ''Unknown route'' (a @ ''<h1>502 '' @ d @ '' Unknown route</h1>'' @ b)"
proof -
  have "a @ ''<h1>502 '' @ d @ '' Unknown route</h1>'' @ b
        = (a @ ''<h1>502 '' @ d @ '' '') @ ''Unknown route'' @ (''</h1>'' @ b)"
    by simp
  then show ?thesis unfolding sublist_def by blast
qed

lemma sublist_code:
  "sublist x (a @ b @ ''<p>No route registered for <code>'' @ x @ c)"
proof -
  have "a @ b @ ''<p>No route registered for <code>'' @ x @ c
        = (a @ b @ ''<p>No route registered for <code>'') @ x @ c"
    by simp
  then show ?thesis unfolding sublist_def by blast
qed

text \<open>
  Claim C2. A request whose Host header yields a subdomain with no registered route is
  answered with status 502 and a body that contains the phrase \<^verbatim>\<open>Unknown route\<close> and the
  subdomain; the handler opens no outbound request and leaves the service unchanged.
\<close>

theorem handleRequest_unknown_route:
  assumes "extractSubdomain req = Some sub" and "map_of (routes s) sub = None"
  shows "\<exists>body. handleRequest e req s
           = (s, Respond 502 [(''Content-Type'', ''text/html; charset=utf-8'')] (Text body)) \<and>
         sublist ''Unknown route'' body \<and> sublist sub body \<and>
         (\<forall>opts. snd (handleRequest e req s) \<noteq> Forward opts)"
proof -
  let ?body = "''<html><body style=\"background:#1a1a2e;color:#e0e0e0;font-family:system-ui;padding:2rem\">''
                 @ ''<h1>502 '' @ emdash @ '' Unknown route</h1>''
                 @ ''<p>No route registered for <code>'' @ sub @ ''</code>.</p>''
                 @ ''<p><a href=\"http://localhost:'' @ show_port (port s)
                 @ ''\" style=\"color:#7c9aff\">View dashboard</a></p>''
                 @ ''</body></html>''"
  have ne: "sub \<noteq> []" using assms(1) by (rule extractSubdomain_nonempty)
  have eq: "handleRequest e req s
        = (s, Respond 502 [(''Content-Type'', ''text/html; charset=utf-8'')] (Text ?body))"
    using assms ne by (simp add: handleRequest_def)
  have u: "sublist ''Unknown route'' ?body" by (rule sublist_unknown_route)
  have "sublist sub
          (''<html><body style=\"background:#1a1a2e;color:#e0e0e0;font-family:system-ui;padding:2rem\">''
           @ (''<h1>502 '' @ emdash @ '' Unknown route</h1>'')
           @ ''<p>No route registered for <code>'' @ sub
           @ (''</code>.</p>''
              @ ''<p><a href=\"http://localhost:'' @ show_port (port s)
              @ ''\" style=\"color:#7c9aff\">View dashboard</a></p>''
              @ ''</body></html>''))"
    by (rule sublist_code)
  then have c: "sublist sub ?body" by (simp only: append_assoc)
  have f: "\<forall>opts. snd (handleRequest e req s) \<noteq> Forward opts" by (simp add: eq)
  from eq u c f show ?thesis by blast
qed

theorem handleRequest_unknown_route_witness:
  "extractSubdomain (request ''unknown.localhost:18900'') = Some ''unknown'' \<and>
   map_of (routes (fst (start os_free (Some 18900) initial))) ''unknown'' = None \<and>
   (\<exists>body. handleRequest os_free (request ''unknown.localhost:18900'')
              (fst (start os_free (Some 18900) initial))
           = (fst (start os_free (Some 18900) initial),
              Respond 502 [(''Content-Type'', ''text/html; charset=utf-8'')] (Text body)) \<and>
         sublist ''Unknown route'' body \<and> sublist ''unknown'' body)"
proof -
  let ?s = "fst (start os_free (Some 18900) initial)"
  have a: "extractSubdomain (request ''unknown.localhost:18900'') = Some ''unknown''"
    by (simp add: rx_group1_def rx_run.simps rx_test_def HOST_RE_group_def HOST_RE_tail_def
          az09_def az09h_def digit_def Plus_def)
  have r: "map_of (routes ?s) ''unknown'' = None"
    by (simp add: start_def initial_def os_free_def Let_def)
  show ?thesis
    using a r handleRequest_unknown_route [OF a r, of os_free] by blast
qed

lemma start_routes [simp]: "routes (fst (start e p s)) = routes s"
  by (simp add: start_def Let_def split: option.splits)

lemma start_listeners [simp]: "listeners (fst (start e p s)) = listeners s"
  by (simp add: start_def Let_def split: option.splits)

lemma addRoute_ok:
  assumes "rx_test SLUG_RE nm" and "map_of (routes s) nm = None"
  shows "\<exists>r s'. addRoute e nm tp opts s = (s', Inr r) \<and> map_of (routes s') nm = Some r \<and>
           name r = nm \<and> targetPort r = tp \<and> status r = St_running"
  using assms by (simp add: addRoute_def Let_def update_conv')


lemma start_ok_stopped:
  assumes "server s = None" and "ok (snd (start e p s))"
  shows "start e p s =
           (emitProxyEvent e Ev_started None None
              (s\<lparr>server := Some (Server (pickAvailablePort e (candidates p))),
                 port := Some (pickAvailablePort e (candidates p))\<rparr>),
            \<lparr>ok = True, result_port = Some (pickAvailablePort e (candidates p)),
             result_error = None\<rparr>)"
  using assms by (simp add: start_def Let_def split: option.splits)


lemma start_emits:
  assumes "server s = None" and "ok (snd (start e p s))" and "s' = fst (start e p s)"
  shows "\<exists>ev. evt_type ev = Ev_started \<and> published s' = published s @ [ev] \<and>
           delivered s' = delivered s @ map (\<lambda>l. (l, ev)) (listeners s) \<and>
           listeners s' = listeners s \<and> routes s' = routes s \<and> server s' \<noteq> None"
  unfolding assms(3) start_ok_stopped [OF assms(1,2)] by simp

lemma addRoute_emits:
  assumes "rx_test SLUG_RE nm" and "map_of (routes s) nm = None" and "server s \<noteq> None"
    and "s' = fst (addRoute e nm tp opts s)"
  shows "\<exists>ev. evt_type ev = Ev_route_added \<and> published s' = published s @ [ev] \<and>
           delivered s' = delivered s @ map (\<lambda>l. (l, ev)) (listeners s) \<and>
           listeners s' = listeners s \<and> map_of (routes s') nm \<noteq> None \<and> server s' \<noteq> None"
  using assms(1-3) unfolding assms(4) by (auto simp: addRoute_def Let_def update_conv')

lemma removeRoute_emits:
  assumes "map_of (routes s) nm \<noteq> None" and "s' = fst (removeRoute e nm s)"
  shows "\<exists>ev. evt_type ev = Ev_route_removed \<and> published s' = published s @ [ev] \<and>
           delivered s' = delivered s @ map (\<lambda>l. (l, ev)) (listeners s) \<and>
           listeners s' = listeners s \<and> server s' = server s"
  using assms(1) unfolding assms(2) by (auto simp: removeRoute_def)

lemma stop_emits:
  assumes "server s \<noteq> None" and "s' = fst (stop e s)"
  shows "\<exists>ev. evt_type ev = Ev_stopped \<and> published s' = published s @ [ev] \<and>
           delivered s' = delivered s @ map (\<lambda>l. (l, ev)) (listeners s) \<and>
           listeners s' = listeners s"
  using assms(1) unfolding assms(2) by (simp add: stop_def)

lemma filter_listener:
  "map snd (filter (\<lambda>d. fst d = l) (map (\<lambda>k. (k, ev)) ls)) = replicate (count_list ls l) ev"
  by (induction ls) auto

text \<open>
  Claim C9. On a stopped engine, when \<open>start\<close> reports success, the calls \<open>start\<close>,
  \<open>addRoute\<close> (a slug name not yet registered), \<open>removeRoute\<close> of that name and \<open>stop\<close>
  publish exactly four events, of types \<^verbatim>\<open>started\<close>, \<^verbatim>\<open>route:added\<close>,
  \<^verbatim>\<open>route:removed\<close>, \<^verbatim>\<open>stopped\<close> in this order, and every subscribed listener is called
  with these events in the order they were published.
\<close>

theorem lifecycle_events_in_order:
  assumes "server s = None" and "ok (snd (start e1 p s))"
    and "rx_test SLUG_RE nm" and "map_of (routes s) nm = None"
    and "s1 = fst (start e1 p s)"
    and "s2 = fst (addRoute e2 nm tp opts s1)"
    and "s3 = fst (removeRoute e3 nm s2)"
    and "s4 = fst (stop e4 s3)"
  shows "\<exists>evs. published s4 = published s @ evs \<and>
           map evt_type evs = [Ev_started, Ev_route_added, Ev_route_removed, Ev_stopped] \<and>
           delivered s4
             = delivered s @ concat (map (\<lambda>ev. map (\<lambda>l. (l, ev)) (listeners s)) evs) \<and>
           (\<forall>l. received l s4
             = received l s @ concat (map (\<lambda>ev. replicate (count_list (listeners s) l) ev) evs))"
proof -
  from start_emits [OF assms(1,2,5)] obtain a where
    a: "evt_type a = Ev_started" "published s1 = published s @ [a]"
       "delivered s1 = delivered s @ map (\<lambda>l. (l, a)) (listeners s)"
       "listeners s1 = listeners s" "routes s1 = routes s" "server s1 \<noteq> None"
    by blast
  have free: "map_of (routes s1) nm = None" using a(5) assms(4) by simp
  from addRoute_emits [OF assms(3) free a(6) assms(6)] obtain b where
    b: "evt_type b = Ev_route_added" "published s2 = published s1 @ [b]"
       "delivered s2 = delivered s1 @ map (\<lambda>l. (l, b)) (listeners s1)"
       "listeners s2 = listeners s1" "map_of (routes s2) nm \<noteq> None" "server s2 \<noteq> None"
    by blast
  from removeRoute_emits [OF b(5) assms(7)] obtain c where
    c: "evt_type c = Ev_route_removed" "published s3 = published s2 @ [c]"
       "delivered s3 = delivered s2 @ map (\<lambda>l. (l, c)) (listeners s2)"
       "listeners s3 = listeners s2" "server s3 = server s2"
    by blast
  have up: "server s3 \<noteq> None" using c(5) b(6) by simp
  from stop_emits [OF up assms(8)] obtain d where
    d: "evt_type d = Ev_stopped" "published s4 = published s3 @ [d]"
       "delivered s4 = delivered s3 @ map (\<lambda>l. (l, d)) (listeners s3)"
    by blast
  let ?evs = "[a, b, c, d]"
  have p: "published s4 = published s @ ?evs"
    using a(2) b(2) c(2) d(2) by simp
  have t: "map evt_type ?evs = [Ev_started, Ev_route_added, Ev_route_removed, Ev_stopped]"
    using a(1) b(1) c(1) d(1) by simp
  have dl: "delivered s4
             = delivered s @ concat (map (\<lambda>ev. map (\<lambda>l. (l, ev)) (listeners s)) ?evs)"
    using a(3,4) b(3,4) c(3,4) d(3) by simp
  have rc: "received l s4
             = received l s @ concat (map (\<lambda>ev. replicate (count_list (listeners s) l) ev) ?evs)"
    for l
    unfolding received_def dl by (simp add: filter_listener)
  show ?thesis
  proof (intro exI conjI allI)
    show "published s4 = published s @ ?evs" by (rule p)
    show "map evt_type ?evs = [Ev_started, Ev_route_added, Ev_route_removed, Ev_stopped]"
      by (rule t)
    show "delivered s4
            = delivered s @ concat (map (\<lambda>ev. map (\<lambda>l. (l, ev)) (listeners s)) ?evs)"
      by (rule dl)
    show "received l s4
            = received l s @ concat (map (\<lambda>ev. replicate (count_list (listeners s) l) ev) ?evs)"
      for l by (rule rc)
  qed
qed

theorem lifecycle_events_in_order_witness:
  "server (onEvent 7 initial) = None \<and>
   ok (snd (start os_free (Some 18900) (onEvent 7 initial))) \<and>
   rx_test SLUG_RE ''evt-test'' \<and>
   map_of (routes (onEvent 7 initial)) ''evt-test'' = None \<and>
   map evt_type
     (published (run [Start os_free (Some 18900), AddRoute os_free ''evt-test'' 3000 None,
                      RemoveRoute os_free ''evt-test'', Stop os_free] (onEvent 7 initial)))
     = [Ev_started, Ev_route_added, Ev_route_removed, Ev_stopped] \<and>
   map evt_type
     (received 7 (run [Start os_free (Some 18900), AddRoute os_free ''evt-test'' 3000 None,
                       RemoveRoute os_free ''evt-test'', Stop os_free] (onEvent 7 initial)))
     = [Ev_started, Ev_route_added, Ev_route_removed, Ev_stopped]"
proof -
  let ?s = "onEvent 7 initial"
  let ?s4 = "run [Start os_free (Some 18900), AddRoute os_free ''evt-test'' 3000 None,
                  RemoveRoute os_free ''evt-test'', Stop os_free] ?s"
  have h1: "server ?s = None" by (simp add: onEvent_def initial_def)
  have h2: "ok (snd (start os_free (Some 18900) ?s))"
    by (simp add: start_def onEvent_def initial_def os_free_def Let_def)
  have h3: "rx_test SLUG_RE ''evt-test''"
    by (simp add: rx_test_def SLUG_RE_def rx_run.simps az09_def az09h_def)
  have h4: "map_of (routes ?s) ''evt-test'' = None" by (simp add: onEvent_def initial_def)
  have s4: "?s4 = fst (stop os_free (fst (removeRoute os_free ''evt-test''
                    (fst (addRoute os_free ''evt-test'' 3000 None
                       (fst (start os_free (Some 18900) ?s)))))))"
    by (simp add: run_def)
  have ps: "published ?s = []" "received 7 ?s = []" "count_list (listeners ?s) 7 = 1"
    by (simp_all add: onEvent_def initial_def received_def)
  have "\<exists>evs. published ?s4 = published ?s @ evs \<and>
           map evt_type evs = [Ev_started, Ev_route_added, Ev_route_removed, Ev_stopped] \<and>
           delivered ?s4
             = delivered ?s @ concat (map (\<lambda>ev. map (\<lambda>l. (l, ev)) (listeners ?s)) evs) \<and>
           (\<forall>l. received l ?s4
             = received l ?s @ concat (map (\<lambda>ev. replicate (count_list (listeners ?s) l) ev) evs))"
    by (rule lifecycle_events_in_order [OF h1 h2 h3 h4 refl refl refl s4])
  then obtain evs where E:
    "published ?s4 = published ?s @ evs \<and>
     map evt_type evs = [Ev_started, Ev_route_added, Ev_route_removed, Ev_stopped] \<and>
     delivered ?s4
       = delivered ?s @ concat (map (\<lambda>ev. map (\<lambda>l. (l, ev)) (listeners ?s)) evs) \<and>
     (\<forall>l. received l ?s4
       = received l ?s @ concat (map (\<lambda>ev. replicate (count_list (listeners ?s) l) ev) evs))" ..
  from E have pe: "published ?s4 = published ?s @ evs" by (rule conjunct1)
  from E have te: "map evt_type evs = [Ev_started, Ev_route_added, Ev_route_removed, Ev_stopped]"
    by (rule conjunct2 [THEN conjunct1])
  from E have "\<forall>l. received l ?s4
       = received l ?s @ concat (map (\<lambda>ev. replicate (count_list (listeners ?s) l) ev) evs)"
    by (rule conjunct2 [THEN conjunct2, THEN conjunct2])
  then have re: "received 7 ?s4
       = received 7 ?s @ concat (map (\<lambda>ev. replicate (count_list (listeners ?s) 7) ev) evs)"
    by (rule spec)
  have one: "concat (map (replicate (Suc 0)) xs) = xs" for xs :: "ProxyEvent list"
    by (induction xs) simp_all
  have pub: "map evt_type (published ?s4)
               = [Ev_started, Ev_route_added, Ev_route_removed, Ev_stopped]"
    unfolding pe ps using te by simp
  have rcv: "map evt_type (received 7 ?s4)
               = [Ev_started, Ev_route_added, Ev_route_removed, Ev_stopped]"
    unfolding re ps using te by (simp add: one)
  show ?thesis using pub rcv h1 h2 h3 h4 by blast
qed

lemma slug_a_hyphen: "\<not> rx_test SLUG_RE ''a-''"
  by (simp add: rx_test_def SLUG_RE_def rx_run.simps az09_def az09h_def)

text \<open>
  Claim C1, at the Host value \<^verbatim>\<open>a-.localhost\<close>. The label \<^verbatim>\<open>a-\<close> ends in a hyphen and is
  rejected by \<^verbatim>\<open>SLUG_RE\<close>, so the value is not of the shape \<^verbatim>\<open><slug>.localhost\<close>; yet the
  Host pattern captures \<^verbatim>\<open>a-\<close> as the subdomain, and the request is answered with the
  502 of an unknown route instead of the dashboard of the control surface.
\<close>

theorem extractSubdomain_trailing_hyphen:
  "\<not> rx_test SLUG_RE ''a-'' \<and>
   extractSubdomain (request ''a-.localhost'') = Some ''a-'' \<and>
   (\<exists>body. handleRequest os_free (request ''a-.localhost'') (fst (start os_free None initial))
            = (fst (start os_free None initial),
               Respond 502 [(''Content-Type'', ''text/html; charset=utf-8'')] (Text body)))"
proof -
  have a: "extractSubdomain (request ''a-.localhost'') = Some ''a-''"
    by (simp add: rx_group1_def rx_run.simps rx_test_def HOST_RE_group_def HOST_RE_tail_def
          az09_def az09h_def digit_def Plus_def)
  have r: "map_of (routes (fst (start os_free None initial))) ''a-'' = None"
    by (simp add: initial_def)
  have "\<exists>body. handleRequest os_free (request ''a-.localhost'') (fst (start os_free None initial))
            = (fst (start os_free None initial),
               Respond 502 [(''Content-Type'', ''text/html; charset=utf-8'')] (Text body))"
    using a r by (simp add: handleRequest_def)
  with a slug_a_hyphen show ?thesis by blast
qed

lemma app_slug: "rx_test SLUG_RE ''app''"
  by (simp add: rx_test_def SLUG_RE_def rx_run.simps az09_def az09h_def)

lemma pick_os_race: "pickAvailablePort os_race (candidates None) = 9000"
  by (simp add: pickAvailablePort_def candidates_def DEFAULT_PORTS_def os_race_def)

lemma addRoute_os_race:
  "addRoute os_race ''app'' 3000 None initial =
     (\<lparr>server = None,
       routes = [(''app'', \<lparr>name = ''app'', targetPort = 3000, targetHost = ''127.0.0.1'',
                   status = St_running, taskId = None, url = ''http://app.localhost:null'',
                   registeredAt = ''2026-01-01T00:00:00.000Z'', lastAccessed = None\<rparr>)],
       port = None, listeners = [],
       published =
         [\<lparr>evt_type = Ev_error, evt_route = None,
            evt_error = Some ''listen EADDRINUSE: address already in use 127.0.0.1:9000'',
            timestamp = ''2026-01-01T00:00:00.000Z''\<rparr>,
          \<lparr>evt_type = Ev_route_added,
            evt_route = Some \<lparr>name = ''app'', targetPort = 3000, targetHost = ''127.0.0.1'',
                   status = St_running, taskId = None, url = ''http://app.localhost:null'',
                   registeredAt = ''2026-01-01T00:00:00.000Z'', lastAccessed = None\<rparr>,
            evt_error = None, timestamp = ''2026-01-01T00:00:00.000Z''\<rparr>],
       delivered = [], clock = 3\<rparr>,
      Inr \<lparr>name = ''app'', targetPort = 3000, targetHost = ''127.0.0.1'',
            status = St_running, taskId = None, url = ''http://app.localhost:null'',
            registeredAt = ''2026-01-01T00:00:00.000Z'', lastAccessed = None\<rparr>)"
  using app_slug
  by (simp add: addRoute_def start_def Let_def pick_os_race emitProxyEvent_def show_port_def
        initial_def) (simp add: os_race_def)

text \<open>
  Claim C5, at a fresh engine whose automatic start loses the port between probe and
  bind. The result of \<open>start\<close> is not inspected: \<open>addRoute\<close> succeeds although the engine
  is still stopped, and the route's url carries \<^verbatim>\<open>null\<close> where the listening port belongs.
\<close>

theorem addRoute_after_failed_autostart:
  "\<exists>s r. addRoute os_race ''app'' 3000 None initial = (s, Inr r) \<and>
          server s = None \<and> port s = None \<and> \<not> running (getState s) \<and>
          status r = St_running \<and> url r = ''http://app.localhost:null''"
  unfolding addRoute_os_race by (simp add: getState_def)

text \<open>
  Claim C6, after the same call. The registry holds a route while the engine is stopped,
  and \<open>stop\<close>, which returns at once on a stopped engine, leaves it there: the state
  reported afterwards is not the empty one.
\<close>

theorem stop_after_failed_autostart:
  "\<exists>s r. addRoute os_race ''app'' 3000 None initial = (s, Inr r) \<and>
          server s = None \<and> routes s = [(''app'', r)] \<and>
          stop os_free s = (s, True) \<and>
          getState (fst (stop os_free s))
            = \<lparr>running = False, state_port = None, state_routes = [r]\<rparr>"
  unfolding addRoute_os_race by (simp add: getState_def getRoutes_def stop_def)

text \<open>What does hold: stopping a running engine resets the reported state.\<close>

lemma stop_resets_running:
  "server s \<noteq> None \<Longrightarrow>
     getState (fst (stop e s)) = \<lparr>running = False, state_port = None, state_routes = []\<rparr>"
  by (auto simp: stop_def getState_def getRoutes_def)

text \<open>
  What does hold of a successful \<open>addRoute\<close>: the route is running, carries the name and
  target it was given, defaults the target host to loopback, is stamped with the clock
  and stored; and when the engine is listening afterwards, on a service whose \<open>port\<close>
  field agrees with its server, the url embeds that port.
\<close>

lemma addRoute_route_fields:
  assumes "addRoute e nm tp opts s = (s', Inr r)"
  shows "name r = nm \<and> targetPort r = tp \<and> status r = St_running \<and>
         (opts = None \<or> (\<exists>v. opts = Some v \<and> opt_targetHost v = None) \<longrightarrow>
            targetHost r = ''127.0.0.1'') \<and>
         url r = ''http://'' @ nm @ ''.localhost:'' @ show_port (port s') \<and>
         map_of (routes s') nm = Some r"
  using assms
  by (auto simp: addRoute_def Let_def update_conv' split: if_splits)

lemma addRoute_registeredAt:
  assumes "addRoute e nm tp opts s = (s', Inr r)" and "server s \<noteq> None"
  shows "registeredAt r = now e (clock s)"
  using assms by (auto simp: addRoute_def Let_def split: if_splits)

lemma start_port_agrees:
  assumes "\<forall>q. server s = Some (Server q) \<longrightarrow> port s = Some q"
  shows "\<forall>q. server (fst (start e p s)) = Some (Server q) \<longrightarrow> port (fst (start e p s)) = Some q"
  using assms by (auto simp: start_def Let_def split: option.splits)

lemma addRoute_url_listening:
  assumes "addRoute e nm tp opts s = (s', Inr r)"
    and "\<forall>q. server s = Some (Server q) \<longrightarrow> port s = Some q"
    and "server s' = Some (Server p)"
  shows "url r = ''http://'' @ nm @ ''.localhost:'' @ dec p"
proof -
  have u: "url r = ''http://'' @ nm @ ''.localhost:'' @ show_port (port s')"
    using addRoute_route_fields [OF assms(1)] by blast
  have "port s' = Some p"
  proof (cases "server s = None")
    case True
    with assms(1) have "server s' = server (fst (start e None s))"
      "port s' = port (fst (start e None s))"
      by (auto simp: addRoute_def Let_def split: if_splits)
    with start_port_agrees [OF assms(2), of e None] assms(3) show ?thesis by simp
  next
    case False
    with assms(1) have "server s' = server s" "port s' = port s"
      by (auto simp: addRoute_def Let_def split: if_splits)
    with assms(2,3) show ?thesis by simp
  qed
  with u show ?thesis by (simp add: show_port_def)
qed

text \<open>
  What does hold of the Host pattern: it captures every slug followed by \<^verbatim>\<open>.localhost\<close> and
  an optional port, and in general exactly the labels that start with a letter or digit
  and continue with letters, digits and hyphens.
\<close>

lemma extractSubdomain_slug:
  assumes "rx_test SLUG_RE nm" and "host_tail k"
    and "map_of (headers req) ''host'' = Some (nm @ k)"
  shows "extractSubdomain req = Some nm"
proof -
  from assms(1) have "slug nm" by (simp add: rx_test_SLUG_RE_iff)
  then obtain c p where "nm = c # p" "c \<in> set az09" "set p \<subseteq> set az09h"
    by (blast dest: slug_Cons)
  with assms(2) have "rx_group1 HOST_RE_group HOST_RE_tail (nm @ k) = Some nm"
    unfolding rx_group1_HOST_RE_iff by blast
  with assms(3) show ?thesis by (simp add: extractSubdomain_def)
qed

lemma extractSubdomain_Some_iff:
  "extractSubdomain req = Some sub \<longleftrightarrow>
     (\<exists>c p k. sub = c # p \<and> c \<in> set az09 \<and> set p \<subseteq> set az09h \<and>
        map_of (headers req) ''host'' = Some (sub @ k) \<and> host_tail k)"
proof (cases "map_of (headers req) ''host''")
  case None
  then have "extractSubdomain req = rx_group1 HOST_RE_group HOST_RE_tail []"
    by (simp add: extractSubdomain_def)
  moreover have "rx_group1 HOST_RE_group HOST_RE_tail [] \<noteq> Some sub"
    unfolding rx_group1_HOST_RE_iff by simp
  ultimately show ?thesis using None by simp
next
  case (Some h)
  then have "extractSubdomain req = rx_group1 HOST_RE_group HOST_RE_tail h"
    by (simp add: extractSubdomain_def)
  then have "extractSubdomain req = Some sub \<longleftrightarrow>
     (\<exists>c p k. sub = c # p \<and> c \<in> set az09 \<and> set p \<subseteq> set az09h \<and> h = sub @ k \<and> host_tail k)"
    by (simp only: rx_group1_HOST_RE_iff)
  with Some show ?thesis by simp
qed

lemma start_phases:
  "start e p s =
     (if server s \<noteq> None then (s, \<lparr>ok = True, result_port = port s, result_error = None\<rparr>)
      else start_body e p s)"
  by (simp add: start_def start_body_def)

lemma addRoute_phases:
  "addRoute e nm tp opts s =
     (case addRoute_checks nm s of
        Some err \<Rightarrow> (s, Inl err)
      | None \<Rightarrow>
          (let s1 = (if server s = None then fst (start_body e None s) else s)
           in (fst (addRoute_finish e nm tp opts s1), Inr (snd (addRoute_finish e nm tp opts s1)))))"
  by (simp add: addRoute_def addRoute_checks_def addRoute_finish_def start_phases Let_def)














text \<open>
  Calls that are not awaited are outside this statement. Two calls of \<open>addRoute\<close> with one
  name made on a stopped engine before either has resumed both pass the checks, both
  start the engine and both store their route: the second registration replaces the
  first, and neither call fails. Here the second call's probe finds port 9000 taken by
  the first.
\<close>

lemma addRoute_overlapping_calls:
  "addRoute_checks ''dup'' initial = None \<and> server initial = None \<and>
   targetPort (snd (addRoute_finish os_free ''dup'' 3000 None
                      (fst (start_body os_free None initial)))) = 3000 \<and>
   getRoute ''dup''
     (fst (addRoute_finish (os_free\<lparr>tryPort := (\<lambda>i p. p \<noteq> 9000)\<rparr>) ''dup'' 3001 None
        (fst (start_body (os_free\<lparr>tryPort := (\<lambda>i p. p \<noteq> 9000)\<rparr>) None
           (fst (addRoute_finish os_free ''dup'' 3000 None
              (fst (start_body os_free None initial))))))))
     = Some \<lparr>name = ''dup'', targetPort = 3001, targetHost = ''127.0.0.1'', status = St_running,
            taskId = None, url = ''http://dup.localhost:9001'',
            registeredAt = ''2026-01-01T00:00:00.000Z'', lastAccessed = None\<rparr> \<and>
   map evt_type (published
     (fst (addRoute_finish (os_free\<lparr>tryPort := (\<lambda>i p. p \<noteq> 9000)\<rparr>) ''dup'' 3001 None
        (fst (start_body (os_free\<lparr>tryPort := (\<lambda>i p. p \<noteq> 9000)\<rparr>) None
           (fst (addRoute_finish os_free ''dup'' 3000 None
              (fst (start_body os_free None initial))))))))) 
     = [Ev_started, Ev_route_added, Ev_started, Ev_route_added]"
proof -
  have a: "rx_test SLUG_RE ''dup''"
    by (simp add: rx_test_def SLUG_RE_def rx_run.simps az09_def az09h_def)
  have p: "pickAvailablePort os_free (candidates None) = 9000"
    "pickAvailablePort (os_free\<lparr>tryPort := (\<lambda>i p. p \<noteq> 9000)\<rparr>) (candidates None) = 9001"
    by (simp_all add: pickAvailablePort_def candidates_def DEFAULT_PORTS_def os_free_def)
  have l: "listen os_free = (\<lambda>p. None)" "now os_free = (\<lambda>n. ''2026-01-01T00:00:00.000Z'')"
    by (simp_all add: os_free_def)
  show ?thesis
    using a
    by (simp add: addRoute_checks_def addRoute_finish_def start_body_def Let_def p l
          emitProxyEvent_def show_port_def initial_def dec.simps getRoute_def)
qed

end
